theory Spec2Isabelle
  imports Complex_Main "HOL-Library.Sublist" "HOL-Library.Multiset"
    "HOL-Library.Char_ord" "HOL-Library.List_Lexorder"
begin

section \<open>Speech sessions: data model\<close>

text \<open>
  The table of \<^verbatim>\<open>models.SpeechSession\<close> is a list of rows. Timestamps are integers
  counting microseconds (the resolution of a Python \<^verbatim>\<open>datetime\<close>). A Python float is the
  rational number it stands for, and every float operation rounds its exact result to
  the nearest binary64 number, as the hardware does.
  \<^verbatim>\<open>status\<close> is a \<^verbatim>\<open>CharField\<close>: its \<^verbatim>\<open>choices\<close> are checked by forms and serializers
  only, so the column holds any string.
\<close>

type_synonym user_id = nat
type_synonym timestamp = int

record session =
  ident :: nat
  user :: user_id
  date :: timestamp
  duration :: int
  filler_count :: int
  pacing_analysis :: string
  status :: string
  audio_file :: "string option"
  transcription :: string
  confidence_score :: "rat option"
  created_at :: timestamp
  updated_at :: timestamp

type_synonym db = "session list"


text \<open>\<^verbatim>\<open>timedelta(days=n)\<close> in microseconds.\<close>

definition days :: "int \<Rightarrow> int" where
  "days n = n * 86400000000"

text \<open>
  \<^verbatim>\<open>bool(session.audio_file)\<close>: a \<^verbatim>\<open>FieldFile\<close> is true when its name is a non-empty
  string.
\<close>

definition has_audio_file :: "session \<Rightarrow> bool" where
  "has_audio_file s = (case audio_file s of None \<Rightarrow> False | Some n \<Rightarrow> n \<noteq> [])"

section \<open>Query sets\<close>

text \<open>\<^verbatim>\<open>SpeechSessionViewSet.get_queryset\<close>: \<^verbatim>\<open>SpeechSession.objects.filter(user=request.user)\<close>.\<close>

definition get_queryset :: "user_id \<Rightarrow> db \<Rightarrow> session list" where
  "get_queryset u d = filter (\<lambda>s. user s = u) d"

section \<open>Binary64 arithmetic\<close>

text \<open>
  \<open>fl x\<close> is the binary64 number nearest to the rational \<open>x\<close>, a tie going to the even
  significand: 53 significant bits in the normal range, multiples of \<open>pow2 (- 1074)\<close> below it.
  Overflow is not modelled (the results of the program stay far below \<open>pow2 1024\<close>).
  \<open>bit_length\<close> is \<^verbatim>\<open>int.bit_length\<close>, and \<open>ilog2 x\<close> the integer part of the binary
  logarithm of a positive rational.
\<close>

function bit_length :: "int \<Rightarrow> int" where
  "bit_length n = (if n \<le> 0 then 0 else 1 + bit_length (n div 2))"
  by pat_completeness auto
termination
  by (relation "measure nat") auto

definition pow2 :: "int \<Rightarrow> rat" where
  "pow2 e = (if 0 \<le> e then 2 ^ nat e else 1 / 2 ^ nat (- e))"

definition round_half_even :: "rat \<Rightarrow> int" where
  "round_half_even y =
     (let f = \<lfloor>y\<rfloor>; r = y - of_int f
      in if r < 1 / 2 then f
         else if 1 / 2 < r then f + 1
         else if even f then f else f + 1)"

definition ilog2 :: "rat \<Rightarrow> int" where
  "ilog2 x =
     (let (a, b) = quotient_of x;
          e = bit_length a - bit_length b
      in if pow2 e \<le> x then e else e - 1)"

definition fl :: "rat \<Rightarrow> rat" where
  "fl x =
     (if x = 0 then 0
      else
        (let a = \<bar>x\<bar>;
             e = max (ilog2 a) (- 1022);
             q = pow2 (e - 52);
             r = of_int (round_half_even (a / q)) * q
         in if 0 < x then r else - r))"

text \<open>
  \<^verbatim>\<open>round(x, 2)\<close> on a float: the exact value of \<open>x\<close> is rounded to two decimals, a tie
  going to the even digit, and the result is the float nearest to that decimal (the
  float that a JSON response prints as the decimal).
\<close>

definition round2 :: "rat \<Rightarrow> rat" where
  "round2 x = fl (of_int (round_half_even (x * 100)) / 100)"

section \<open>Aggregates\<close>

text \<open>
  \<^verbatim>\<open>Sum(field)\<close> is \<^verbatim>\<open>None\<close> on an empty query set, \<^verbatim>\<open>Avg(field)\<close> too. The sum of an
  integer column is an integer; the average is a float, the one nearest to the mean.
\<close>

definition Sum :: "(session \<Rightarrow> int) \<Rightarrow> session list \<Rightarrow> int option" where
  "Sum f qs = (if qs = [] then None else Some (sum_list (map f qs)))"

definition Avg :: "(session \<Rightarrow> int) \<Rightarrow> session list \<Rightarrow> rat option" where
  "Avg f qs =
     (if qs = [] then None
      else Some (fl (of_int (sum_list (map f qs)) / of_nat (length qs))))"

text \<open>\<^verbatim>\<open>x or 0\<close> on an optional number: \<^verbatim>\<open>None\<close> and zero are both falsy.\<close>

definition or_zero :: "'a::zero option \<Rightarrow> 'a" where
  "or_zero x = (case x of None \<Rightarrow> 0 | Some v \<Rightarrow> v)"

section \<open>Analytics\<close>

record analytics_data =
  total_sessions :: nat
  total_duration :: int
  average_duration :: rat
  total_filler_words :: int
  average_filler_rate :: rat
  sessions_by_status :: "(string \<times> nat) list"
  recent_sessions_count :: nat
  improvement_metrics :: "(string \<times> rat) list option"

text \<open>
  \<^verbatim>\<open>sessions.values('status').annotate(count=Count('id')).order_by('status')\<close>: one entry
  per status value present, with the number of rows that carry it, in the order of the
  status values.
\<close>

definition status_counts :: "session list \<Rightarrow> (string \<times> nat) list" where
  "status_counts qs =
     map (\<lambda>st. (st, length (filter (\<lambda>s. status s = st) qs)))
       (sort (remdups (map status qs)))"

text \<open>
  \<^verbatim>\<open>SpeechSessionViewSet.analytics\<close>. The handler reads the clock twice: \<open>now1\<close> is the
  reading behind \<^verbatim>\<open>thirty_days_ago\<close>, \<open>now2\<close> the one behind \<^verbatim>\<open>sixty_days_ago\<close>.
  The early return for an owner without sessions has no \<^verbatim>\<open>improvement_metrics\<close> key.
  \<^verbatim>\<open>/\<close> on two integers is the float nearest to the quotient; \<^verbatim>\<open>*\<close>, \<^verbatim>\<open>-\<close> and \<^verbatim>\<open>/\<close> on
  floats round likewise.
\<close>

definition avg_filler_rate :: "session list \<Rightarrow> rat" where
  "avg_filler_rate sessions =
     (let analyzed_sessions = filter (\<lambda>s. status s = ''analyzed'') sessions;
          total_fillers = Sum filler_count analyzed_sessions
      in if analyzed_sessions \<noteq> [] then
           (case Sum duration analyzed_sessions of
              None \<Rightarrow> 0
            | Some total_analyzed_duration \<Rightarrow>
                if total_analyzed_duration \<noteq> 0 \<and> 0 < total_analyzed_duration
                then fl (fl (of_int (or_zero total_fillers) / of_int total_analyzed_duration)
                           * 60)
                else 0)
         else 0)"

definition improvement :: "timestamp \<Rightarrow> timestamp \<Rightarrow> session list \<Rightarrow> (string \<times> rat) list" where
  "improvement now1 now2 sessions =
     (let thirty_days_ago = now1 - days 30 in
      if 1 < length sessions then
        (let sixty_days_ago = now2 - days 60;
             recent_sessions = filter (\<lambda>s. thirty_days_ago \<le> date s) sessions;
             previous_sessions =
               filter (\<lambda>s. sixty_days_ago \<le> date s \<and> date s < thirty_days_ago) sessions
         in if recent_sessions \<noteq> [] \<and> previous_sessions \<noteq> [] then
              (let recent_avg_fillers = or_zero (Avg filler_count recent_sessions);
                   previous_avg_fillers = or_zero (Avg filler_count previous_sessions)
               in if 0 < previous_avg_fillers then
                    [(''filler_improvement_percent'',
                      round2 (fl (fl (fl (previous_avg_fillers - recent_avg_fillers)
                                        / previous_avg_fillers) * 100)))]
                  else [])
            else [])
      else [])"

definition analytics :: "user_id \<Rightarrow> timestamp \<Rightarrow> timestamp \<Rightarrow> db \<Rightarrow> analytics_data" where
  "analytics u now1 now2 d =
     (let sessions = get_queryset u d in
      if length sessions = 0 then
        \<lparr>total_sessions = 0, total_duration = 0, average_duration = 0,
         total_filler_words = 0, average_filler_rate = 0, sessions_by_status = [],
         recent_sessions_count = 0, improvement_metrics = None\<rparr>
      else
        \<lparr>total_sessions = length sessions,
         total_duration = or_zero (Sum duration sessions),
         average_duration = round2 (or_zero (Avg duration sessions)),
         total_filler_words =
           or_zero (Sum filler_count (filter (\<lambda>s. status s = ''analyzed'') sessions)),
         average_filler_rate = round2 (avg_filler_rate sessions),
         sessions_by_status = status_counts sessions,
         recent_sessions_count =
           length (filter (\<lambda>s. now1 - days 30 \<le> date s) sessions),
         improvement_metrics = Some (improvement now1 now2 sessions)\<rparr>)"

text \<open>The value under \<^verbatim>\<open>improvement_metrics.filler_improvement_percent\<close>, if the key is there.\<close>

definition filler_improvement_percent :: "analytics_data \<Rightarrow> rat option" where
  "filler_improvement_percent r =
     (case improvement_metrics r of
        None \<Rightarrow> None
      | Some m \<Rightarrow> map_of m ''filler_improvement_percent'')"

section \<open>Access control\<close>

text \<open>
  Failures are values: the HTTP status of an error response, or the redirect of a page
  view.
\<close>

datatype failure = HTTP_400 | HTTP_403 | HTTP_404 | HTTP_500 | Redirect string

record actor =
  uid :: user_id
  is_authenticated :: bool
  is_2fa_enabled :: bool
  is_verified :: bool
  has_2fa_setup :: bool

text \<open>\<^verbatim>\<open>IsOwnerPermission.has_permission\<close> and \<^verbatim>\<open>has_object_permission\<close>.\<close>

definition has_permission :: "actor \<Rightarrow> bool" where
  "has_permission a =
     (if \<not> is_authenticated a then False
      else if is_2fa_enabled a then is_verified a
      else True)"

definition has_object_permission :: "actor \<Rightarrow> session \<Rightarrow> bool" where
  "has_object_permission a obj = (user obj = uid a)"

text \<open>
  \<^verbatim>\<open>login_required\<close> and \<^verbatim>\<open>require_2fa_if_enabled\<close>, the decorators of every page view:
  \<open>None\<close> lets the request through to the view.
\<close>

definition require_2fa_if_enabled :: "actor \<Rightarrow> failure option" where
  "require_2fa_if_enabled a =
     (if \<not> is_authenticated a then Some (Redirect ''login'')
      else if is_2fa_enabled a \<and> \<not> has_2fa_setup a then Some (Redirect ''coach:setup_2fa'')
      else None)"

text \<open>
  \<^verbatim>\<open>self.get_object()\<close> of the view set: the row with this primary key in
  \<^verbatim>\<open>get_queryset()\<close>, a 404 when there is none, then the object permission. The request
  carries no filter or search parameter, so the filter backends keep the whole query set.
\<close>

definition get_object :: "actor \<Rightarrow> nat \<Rightarrow> db \<Rightarrow> failure + session" where
  "get_object a pk d =
     (case filter (\<lambda>s. ident s = pk) (get_queryset (uid a) d) of
        [] \<Rightarrow> Inl HTTP_404
      | [obj] \<Rightarrow> if has_object_permission a obj then Inr obj else Inl HTTP_403
      | _ \<Rightarrow> Inl HTTP_500)"


section \<open>Writing rows\<close>

text \<open>
  \<^verbatim>\<open>session.save()\<close> writes the row with the instance's primary key and, the column being
  \<^verbatim>\<open>auto_now\<close>, stamps \<^verbatim>\<open>updated_at\<close> with the clock; a file field without a file is written
  as the empty name. \<^verbatim>\<open>QuerySet.update(...)\<close> is one SQL
  statement on the selected rows: it runs no validator, calls no \<^verbatim>\<open>save()\<close> and so leaves
  \<^verbatim>\<open>updated_at\<close> alone; it returns the number of rows selected.
  \<^verbatim>\<open>QuerySet.delete()\<close> removes the selected rows.
\<close>

definition save :: "timestamp \<Rightarrow> session \<Rightarrow> db \<Rightarrow> db" where
  "save now s d =
     map (\<lambda>r. if ident r = ident s
              then s\<lparr>updated_at := now,
                     audio_file := (case audio_file s of None \<Rightarrow> Some [] | Some n \<Rightarrow> Some n)\<rparr>
              else r) d"

definition update :: "(session \<Rightarrow> bool) \<Rightarrow> (session \<Rightarrow> session) \<Rightarrow> db \<Rightarrow> nat \<times> db" where
  "update sel f d = (length (filter sel d), map (\<lambda>r. if sel r then f r else r) d)"

definition delete :: "(session \<Rightarrow> bool) \<Rightarrow> db \<Rightarrow> db" where
  "delete sel d = filter (\<lambda>r. \<not> sel r) d"

section \<open>Serializer validation and the REST detail routes\<close>







text \<open>The detail routes of the view set: retrieve, update, destroy.\<close>

definition retrieve :: "actor \<Rightarrow> nat \<Rightarrow> db \<Rightarrow> (failure + session) \<times> db" where
  "retrieve a pk d = (get_object a pk d, d)"



text \<open>
  Before a handler of the view set runs, the permission classes are checked
  (\<^verbatim>\<open>permission_classes = [IsAuthenticated, IsOwnerPermission]\<close>); a request that fails
  them is answered 403 (a request without credentials 401 or 403, modelled as 403) and
  the handler is not run.
\<close>

definition dispatch :: "actor \<Rightarrow> db \<Rightarrow> (failure + 'r) \<times> db \<Rightarrow> (failure + 'r) \<times> db" where
  "dispatch a d handler = (if has_permission a then handler else (Inl HTTP_403, d))"

section \<open>Bulk update\<close>

text \<open>
  The values of the \<^verbatim>\<open>updates\<close> object are JSON values: a string, a number written
  without fraction and exponent (a Python \<^verbatim>\<open>int\<close>), any other number (\<open>JNum\<close> carries the
  exact value of the literal, which Python reads as the nearest float) and \<^verbatim>\<open>null\<close>.
\<close>

datatype json = JStr string | JInt int | JNum rat | JNull

definition allowed_fields :: "string list" where
  "allowed_fields = [''status'', ''pacing_analysis'', ''filler_count'', ''confidence_score'']"

text \<open>
  \<open>column_safe k v\<close>: the value \<open>v\<close> has the type of the column \<open>k\<close> and every database
  that the ORM supports takes it: a text without a NUL character (of at most
  \<^verbatim>\<open>max_length=20\<close> characters for the status), an integer of the 32-bit range of an
  \<^verbatim>\<open>IntegerField\<close>, and for the nullable float column \<^verbatim>\<open>null\<close>, a number of the normal
  binary64 range or an integer that a float holds exactly.
\<close>

definition column_safe :: "string \<Rightarrow> json \<Rightarrow> bool" where
  "column_safe k v =
     (case v of
        JStr x \<Rightarrow>
          (k = ''status'' \<and> length x \<le> 20 \<or> k = ''pacing_analysis'') \<and> CHR 0x00 \<notin> set x
      | JInt x \<Rightarrow>
          k = ''filler_count'' \<and> - 2147483648 \<le> x \<and> x \<le> 2147483647 \<or>
          k = ''confidence_score'' \<and> \<bar>x\<bar> \<le> 9007199254740992
      | JNum x \<Rightarrow> k = ''confidence_score'' \<and> (x = 0 \<or> pow2 (- 1022) \<le> \<bar>x\<bar> \<and> \<bar>x\<bar> < pow2 1023)
      | JNull \<Rightarrow> k = ''confidence_score'')"

text \<open>The assignment of a value of the column's type to the column \<open>k\<close> of a row.\<close>

definition assign :: "string \<Rightarrow> json \<Rightarrow> (session \<Rightarrow> session) option" where
  "assign k v =
     (if k = ''status'' then
        (case v of JStr x \<Rightarrow> Some (\<lambda>s. s\<lparr>status := x\<rparr>) | _ \<Rightarrow> None)
      else if k = ''pacing_analysis'' then
        (case v of JStr x \<Rightarrow> Some (\<lambda>s. s\<lparr>pacing_analysis := x\<rparr>) | _ \<Rightarrow> None)
      else if k = ''filler_count'' then
        (case v of JInt x \<Rightarrow> Some (\<lambda>s. s\<lparr>filler_count := x\<rparr>) | _ \<Rightarrow> None)
      else if k = ''confidence_score'' then
        (case v of
           JNum x \<Rightarrow> Some (\<lambda>s. s\<lparr>confidence_score := Some (fl x)\<rparr>)
         | JInt x \<Rightarrow> Some (\<lambda>s. s\<lparr>confidence_score := Some (fl (of_int x))\<rparr>)
         | JNull \<Rightarrow> Some (\<lambda>s. s\<lparr>confidence_score := None\<rparr>)
         | _ \<Rightarrow> None)
      else None)"

text \<open>
  \<^verbatim>\<open>update(**updates)\<close> hands every value to the ORM, which converts it for its column
  and passes it to the database. A \<open>column_safe\<close> value is stored as it is. What becomes
  of any other value (a conversion, an exception of the ORM, an error of the database)
  is decided by the ORM and the database, the parameter \<open>prep\<close>: \<open>None\<close> when the
  statement fails (a 500-class error, nothing is written), the converted value
  otherwise.
\<close>

definition set_field ::
  "(string \<Rightarrow> json \<Rightarrow> json option) \<Rightarrow> string \<Rightarrow> json \<Rightarrow> (session \<Rightarrow> session) option" where
  "set_field prep k v =
     (case (if column_safe k v then Some v else prep k v) of
        None \<Rightarrow> None
      | Some w \<Rightarrow> assign k w)"

text \<open>The assignments of \<^verbatim>\<open>update(**updates)\<close>, in the order of the object's keys.\<close>

fun set_fields ::
  "(string \<Rightarrow> json \<Rightarrow> json option) \<Rightarrow> (string \<times> json) list \<Rightarrow> (session \<Rightarrow> session) option" where
  "set_fields prep [] = Some (\<lambda>s. s)"
| "set_fields prep ((k, v) # kvs) =
     (case set_field prep k v of
        None \<Rightarrow> None
      | Some f \<Rightarrow> (case set_fields prep kvs of None \<Rightarrow> None | Some g \<Rightarrow> Some (g \<circ> f)))"

text \<open>
  \<^verbatim>\<open>SpeechSessionViewSet.bulk_update\<close>; the result of a successful request is its
  \<^verbatim>\<open>updated_count\<close>.
\<close>

definition bulk_update ::
  "(string \<Rightarrow> json \<Rightarrow> json option) \<Rightarrow> user_id \<Rightarrow> nat list \<Rightarrow> (string \<times> json) list \<Rightarrow> db
     \<Rightarrow> (failure + nat) \<times> db" where
  "bulk_update prep u session_ids updates d =
     (if session_ids = [] \<or> updates = [] then (Inl HTTP_400, d)
      else
        (let sessions = filter (\<lambda>s. ident s \<in> set session_ids) (get_queryset u d) in
         if sessions = [] then (Inl HTTP_404, d)
         else
           (let invalid_fields = filter (\<lambda>k. k \<notin> set allowed_fields) (map fst updates) in
            if invalid_fields \<noteq> [] then (Inl HTTP_400, d)
            else
              (case set_fields prep updates of
                 None \<Rightarrow> (Inl HTTP_500, d)
               | Some f \<Rightarrow>
                   (let (updated_count, d') =
                          update (\<lambda>s. user s = u \<and> ident s \<in> set session_ids) f d
                    in (Inr updated_count, d'))))))"

text \<open>
  The effect of a bulk update in the words of the claim, on one row: each field named in
  the update object takes the value given for it (\<open>new_text\<close>, \<open>new_int\<close> and \<open>new_float\<close>
  read it from the object), and every other field keeps its own.
\<close>

definition or_else :: "'a option \<Rightarrow> 'a \<Rightarrow> 'a" where
  "or_else x dflt = (case x of None \<Rightarrow> dflt | Some v \<Rightarrow> v)"

definition new_text :: "(string \<times> json) list \<Rightarrow> string \<Rightarrow> string option" where
  "new_text updates k = (case map_of updates k of Some (JStr x) \<Rightarrow> Some x | _ \<Rightarrow> None)"

definition new_int :: "(string \<times> json) list \<Rightarrow> string \<Rightarrow> int option" where
  "new_int updates k = (case map_of updates k of Some (JInt x) \<Rightarrow> Some x | _ \<Rightarrow> None)"

definition new_float :: "(string \<times> json) list \<Rightarrow> string \<Rightarrow> rat option option" where
  "new_float updates k =
     (case map_of updates k of
        Some (JNum x) \<Rightarrow> Some (Some (fl x))
      | Some (JInt x) \<Rightarrow> Some (Some (fl (of_int x)))
      | Some JNull \<Rightarrow> Some None
      | _ \<Rightarrow> None)"

definition written :: "(string \<times> json) list \<Rightarrow> session \<Rightarrow> session" where
  "written updates s =
     s\<lparr>status := or_else (new_text updates ''status'') (status s),
       pacing_analysis := or_else (new_text updates ''pacing_analysis'') (pacing_analysis s),
       filler_count := or_else (new_int updates ''filler_count'') (filler_count s),
       confidence_score :=
         or_else (new_float updates ''confidence_score'') (confidence_score s)\<rparr>"

section \<open>Re-analysis\<close>

text \<open>\<^verbatim>\<open>str(session.id)\<close>: the decimal digits of the primary key.\<close>

fun str :: "nat \<Rightarrow> string" where
  "str n =
     (if n < 10 then [char_of (48 + n)]
      else str (n div 10) @ [char_of (48 + n mod 10)])"

text \<open>
  \<^verbatim>\<open>SpeechSessionViewSet.reanalyze\<close>. The string hash of Python (seeded per process) and
  \<^verbatim>\<open>strftime('%Y-%m-%d %H:%M')\<close> are parameters; \<open>now\<close> is the clock reading of the note,
  \<open>now'\<close> the one of \<^verbatim>\<open>save()\<close>. Python's \<^verbatim>\<open>%\<close> with a positive modulus is \<open>mod\<close>: the
  index is between 0 and 4. \<^verbatim>\<open>x or 0.8\<close> takes 0.8 for \<^verbatim>\<open>None\<close> and for 0.0; the literals
  0.8 and 0.05 are the floats nearest to them, and their sum is rounded as a float.
\<close>

definition or_default :: "rat option \<Rightarrow> rat \<Rightarrow> rat" where
  "or_default x dflt = (case x of None \<Rightarrow> dflt | Some v \<Rightarrow> if v = 0 then dflt else v)"

definition reanalyze ::
  "(string \<Rightarrow> int) \<Rightarrow> (timestamp \<Rightarrow> string) \<Rightarrow> actor \<Rightarrow> nat \<Rightarrow> timestamp \<Rightarrow> timestamp \<Rightarrow> db
     \<Rightarrow> (failure + session) \<times> db" where
  "reanalyze hash strftime a pk now now' d =
     (case get_object a pk d of
        Inl e \<Rightarrow> (Inl e, d)
      | Inr session \<Rightarrow>
          if \<not> has_audio_file session then (Inl HTTP_400, d)
          else
            (let s = session
                   \<lparr>filler_count :=
                      max 0 (filler_count session
                               + [- 2, - 1, 0, 1, 2] ! nat (hash (str (ident session)) mod 5)),
                    pacing_analysis :=
                      ''Re-analyzed on '' @ strftime now @ '': '' @ pacing_analysis session,
                    confidence_score :=
                      Some (min 1 (max 0 (fl (or_default (confidence_score session)
                                                    (fl (8 / 10))
                                                  + fl (5 / 100))))),
                    status := ''analyzed''\<rparr>
             in (Inr (s\<lparr>updated_at := now'\<rparr>), save now' s d)))"

section \<open>Page views\<close>

text \<open>
  The form classes of \<^verbatim>\<open>forms.py\<close> are taken as given: the outcome of
  \<^verbatim>\<open>SpeechSessionFilterForm(request.GET)\<close> is an input of the list view, \<open>None\<close>
  when \<^verbatim>\<open>is_valid()\<close> is false, the cleaned data otherwise. A cleaned date is a day
  number, and \<^verbatim>\<open>date__date\<close> is the day of a timestamp (in UTC).
\<close>

record cleaned_data =
  status_filter :: "string option"
  date_from :: "int option"
  date_to :: "int option"
  search :: "string option"

definition day_of :: "timestamp \<Rightarrow> int" where
  "day_of t = t div days 1"

text \<open>\<^verbatim>\<open>icontains\<close>: a substring match that ignores the case of the ASCII letters.\<close>

definition lower :: "char \<Rightarrow> char" where
  "lower c =
     (let n = of_char c :: nat in if 65 \<le> n \<and> n \<le> 90 then char_of (n + 32) else c)"

definition icontains :: "string \<Rightarrow> string \<Rightarrow> bool" where
  "icontains text needle = sublist (map lower needle) (map lower text)"

text \<open>
  The filters of the list view. \<^verbatim>\<open>if status:\<close> and \<^verbatim>\<open>if search:\<close> are false for \<^verbatim>\<open>None\<close>
  and for the empty string; a date is always true.
\<close>

definition apply_filters :: "cleaned_data option \<Rightarrow> session list \<Rightarrow> session list" where
  "apply_filters form sessions =
     (case form of
        None \<Rightarrow> sessions
      | Some cd \<Rightarrow>
          (let s1 = (case status_filter cd of
                       None \<Rightarrow> sessions
                     | Some st \<Rightarrow>
                         if st = [] then sessions
                         else filter (\<lambda>s. status s = st) sessions);
               s2 = (case date_from cd of
                       None \<Rightarrow> s1
                     | Some df \<Rightarrow> filter (\<lambda>s. df \<le> day_of (date s)) s1);
               s3 = (case date_to cd of
                       None \<Rightarrow> s2
                     | Some dt \<Rightarrow> filter (\<lambda>s. day_of (date s) \<le> dt) s2)
           in (case search cd of
                 None \<Rightarrow> s3
               | Some q \<Rightarrow>
                   if q = [] then s3
                   else filter (\<lambda>s. icontains (transcription s) q
                                      \<or> icontains (pacing_analysis s) q) s3)))"

text \<open>
  \<^verbatim>\<open>order_by('-date')\<close> is carried out by the database, which lists the rows from the
  newest to the oldest and is free in the order of rows of equal date. The ordering is
  therefore a parameter \<open>order_by\<close> of the list view. \<open>order_by_date_desc\<close> is one such
  ordering (rows of equal date in the reverse order of the table), for the examples.
\<close>

definition order_by_date_desc :: "session list \<Rightarrow> session list" where
  "order_by_date_desc sessions = rev (sort_key date sessions)"

text \<open>
  \<^verbatim>\<open>Paginator(sessions, 10).get_page(page_number)\<close>: a page number that is missing or not
  an integer (\<open>None\<close>) selects the first page, one out of range the last page; an empty
  list still has one (empty) page.
\<close>

definition num_pages :: "nat \<Rightarrow> 'a list \<Rightarrow> nat" where
  "num_pages per_page xs = (max 1 (length xs) + per_page - 1) div per_page"

definition get_page :: "nat \<Rightarrow> 'a list \<Rightarrow> int option \<Rightarrow> 'a list" where
  "get_page per_page xs page_number =
     (let number =
            (case page_number of
               None \<Rightarrow> 1
             | Some n \<Rightarrow>
                 if n < 1 \<or> int (num_pages per_page xs) < n then num_pages per_page xs
                 else nat n)
      in take per_page (drop ((number - 1) * per_page) xs))"

record list_context =
  page_obj :: "session list"
  total :: nat
  pending_sessions :: nat
  analyzed_sessions :: nat

definition session_list_view ::
  "(session list \<Rightarrow> session list) \<Rightarrow> actor \<Rightarrow> cleaned_data option \<Rightarrow> int option \<Rightarrow> db
     \<Rightarrow> failure + list_context" where
  "session_list_view order_by a filter_form page_number d =
     (case require_2fa_if_enabled a of
        Some e \<Rightarrow> Inl e
      | None \<Rightarrow>
          (let sessions = filter (\<lambda>s. user s = uid a) d;
               sessions = apply_filters filter_form sessions;
               sessions = order_by sessions
           in Inr \<lparr>page_obj = get_page 10 sessions page_number,
                   total = length (filter (\<lambda>s. user s = uid a) d),
                   pending_sessions =
                     length (filter (\<lambda>s. user s = uid a \<and> status s = ''pending'') d),
                   analyzed_sessions =
                     length (filter (\<lambda>s. user s = uid a \<and> status s = ''analyzed'') d)\<rparr>))"




text \<open>
  \<^verbatim>\<open>session_bulk_action_view\<close>: \<open>body\<close> is \<open>None\<close> when the request body is not JSON,
  and otherwise the \<^verbatim>\<open>action\<close> (empty when the key is missing) and the \<^verbatim>\<open>session_ids\<close>.
  The result of a successful request is the count of its message.
\<close>

definition session_bulk_action_view ::
  "actor \<Rightarrow> (string \<times> nat list) option \<Rightarrow> db \<Rightarrow> (failure + nat) \<times> db" where
  "session_bulk_action_view a body d =
     (case require_2fa_if_enabled a of
        Some e \<Rightarrow> (Inl e, d)
      | None \<Rightarrow>
          (case body of
             None \<Rightarrow> (Inl HTTP_400, d)
           | Some (action, session_ids) \<Rightarrow>
               if action = [] \<or> session_ids = [] then (Inl HTTP_400, d)
               else
                 (let sel = (\<lambda>s. ident s \<in> set session_ids \<and> user s = uid a);
                      count = length (filter sel d)
                  in if count = 0 then (Inl HTTP_404, d)
                     else if action = ''delete'' then (Inr count, delete sel d)
                     else if action = ''archive'' then
                       (Inr count, snd (update sel (\<lambda>s. s\<lparr>status := ''archived''\<rparr>) d))
                     else if action = ''mark_analyzed'' then
                       (Inr count, snd (update sel (\<lambda>s. s\<lparr>status := ''analyzed''\<rparr>) d))
                     else (Inl HTTP_400, d))))"

text \<open>A row for the examples: no text, no audio file, no confidence score.\<close>

definition row :: "nat \<Rightarrow> user_id \<Rightarrow> timestamp \<Rightarrow> int \<Rightarrow> int \<Rightarrow> string \<Rightarrow> session" where
  "row i u t dur fc st =
     \<lparr>ident = i, user = u, date = t, duration = dur, filler_count = fc,
      pacing_analysis = [], status = st, audio_file = None, transcription = [],
      confidence_score = None, created_at = t, updated_at = t\<rparr>"

definition member :: "user_id \<Rightarrow> actor" where
  "member u = \<lparr>uid = u, is_authenticated = True, is_2fa_enabled = False,
                is_verified = False, has_2fa_setup = False\<rparr>"

text \<open>
  The filters of the list operation in the words of the specification, as one predicate
  on a row: the row is the owner's, and it passes each filter that is supplied (status
  equality; creation day not before \<^verbatim>\<open>date_from\<close> and not after \<^verbatim>\<open>date_to\<close>; the search term
  found in the transcription or in the pacing analysis, whatever the case of the
  letters). A filter that is missing or empty asks nothing.
\<close>

definition matches :: "user_id \<Rightarrow> cleaned_data \<Rightarrow> session \<Rightarrow> bool" where
  "matches u cd s \<longleftrightarrow>
     user s = u \<and>
     (case status_filter cd of None \<Rightarrow> True | Some st \<Rightarrow> st = [] \<or> status s = st) \<and>
     (case date_from cd of None \<Rightarrow> True | Some df \<Rightarrow> df \<le> day_of (date s)) \<and>
     (case date_to cd of None \<Rightarrow> True | Some dt \<Rightarrow> day_of (date s) \<le> dt) \<and>
     (case search cd of
        None \<Rightarrow> True
      | Some q \<Rightarrow> q = [] \<or> icontains (transcription s) q \<or> icontains (pacing_analysis s) q)"

text \<open>Six sessions and a query, for the example of the list view.\<close>

definition example_sessions :: db where
  "example_sessions =
     [(row 1 1 (days 3) 60 6 ''analyzed'')\<lparr>transcription := ''so UM yes''\<rparr>,
      (row 2 2 (days 4) 30 1 ''analyzed'')\<lparr>transcription := ''um''\<rparr>,
      (row 3 1 (days 5 + 7) 10 0 ''analyzed'')\<lparr>pacing_analysis := ''Hum''\<rparr>,
      (row 4 1 (days 4) 10 0 ''pending'')\<lparr>transcription := ''um''\<rparr>,
      (row 5 1 (days 6) 10 0 ''analyzed'')\<lparr>transcription := ''um''\<rparr>,
      (row 6 1 (days 4) 10 0 ''analyzed'')\<lparr>transcription := ''no''\<rparr>]"

definition example_query :: cleaned_data where
  "example_query =
     \<lparr>status_filter = Some ''analyzed'', date_from = Some 3, date_to = Some 5,
      search = Some ''um''\<rparr>"

section \<open>Properties of the analytics\<close>

lemma round2_zero: "round2 0 = 0"
  by (simp add: round2_def round_half_even_def fl_def)

lemma get_queryset_analyzed:
  "filter (\<lambda>s. status s = ''analyzed'') (get_queryset u d) =
   filter (\<lambda>s. user s = u \<and> status s = ''analyzed'') d"
  by (simp add: get_queryset_def conj_commute)

lemma analytics_average_filler_rate:
  "average_filler_rate (analytics u now1 now2 d) =
     (let analyzed = filter (\<lambda>s. user s = u \<and> status s = ''analyzed'') d;
          fillers = sum_list (map filler_count analyzed);
          seconds = sum_list (map duration analyzed)
      in if 0 < seconds then round2 (fl (fl (of_int fillers / of_int seconds) * 60)) else 0)"
proof (cases "get_queryset u d = []")
  case True
  then have "filter (\<lambda>s. user s = u \<and> status s = ''analyzed'') d = []"
    using get_queryset_analyzed [of u d] by simp
  with True show ?thesis by (simp add: analytics_def Let_def)
next
  case False
  then show ?thesis
    by (simp add: analytics_def avg_filler_rate_def get_queryset_analyzed Sum_def
        or_zero_def Let_def round2_zero)
qed

text \<open>
  C1, as the code has it: the reported \<^verbatim>\<open>average_filler_rate\<close> is the fillers per minute
  over the owner's analyzed sessions (the sum of their filler counts, divided by the sum
  of their durations, times 60, in float arithmetic) rounded to two decimals by
  \<^verbatim>\<open>round\<close>, and 0 when that sum of durations is not positive. Only rows of the owner
  with status \<^verbatim>\<open>analyzed\<close> enter either sum.
\<close>

theorem C1_average_filler_rate:
  "average_filler_rate (analytics u now1 now2 d) =
     (let analyzed = filter (\<lambda>s. user s = u \<and> status s = ''analyzed'') d;
          fillers = sum_list (map filler_count analyzed);
          seconds = sum_list (map duration analyzed)
      in if 0 < seconds then round2 (fl (fl (of_int fillers / of_int seconds) * 60)) else 0)"
  by (rule analytics_average_filler_rate)

text \<open>
  The example of the specification: durations 60 and 120, filler counts 6 and 3, both
  analyzed, beside a pending session and a session of another owner. The rate is 3.
  One filler word in 800 seconds is reported as 0.07: the float product lies just below
  0.075.
\<close>

theorem C1_average_filler_rate_witness:
  "average_filler_rate
     (analytics 1 0 0 [row 1 1 0 60 6 ''analyzed'', row 2 1 0 120 3 ''analyzed'',
                       row 3 1 0 50 100 ''pending'', row 4 2 0 10 7 ''analyzed'']) = 3 \<and>
   average_filler_rate (analytics 1 0 0 [row 1 1 0 800 1 ''analyzed'']) = fl (7 / 100)"
proof -
  have "(let analyzed = filter (\<lambda>s. user s = 1 \<and> status s = ''analyzed'')
             [row 1 1 0 60 6 ''analyzed'', row 2 1 0 120 3 ''analyzed'',
              row 3 1 0 50 100 ''pending'', row 4 2 0 10 7 ''analyzed''];
          fillers = sum_list (map filler_count analyzed);
          seconds = sum_list (map duration analyzed)
      in if 0 < seconds then round2 (fl (fl (of_int fillers / of_int seconds) * 60)) else 0)
      = 3"
    by code_simp
  moreover have "(let analyzed = filter (\<lambda>s. user s = 1 \<and> status s = ''analyzed'')
             [row 1 1 0 800 1 ''analyzed''];
          fillers = sum_list (map filler_count analyzed);
          seconds = sum_list (map duration analyzed)
      in if 0 < seconds then round2 (fl (fl (of_int fillers / of_int seconds) * 60)) else 0)
      = fl (7 / 100)"
    by code_simp
  ultimately show ?thesis
    by (simp only: C1_average_filler_rate)
qed

text \<open>
  Without the rounding the claim fails: one analyzed session of 7 seconds with one
  filler word has 60/7 fillers per minute, and the response says 8.57.
\<close>

theorem C1_counterexample:
  "average_filler_rate (analytics 1 0 0 [row 1 1 0 7 1 ''analyzed''])
     \<noteq> of_int (sum_list (map filler_count [row 1 1 0 7 1 ''analyzed'']))
         / of_int (sum_list (map duration [row 1 1 0 7 1 ''analyzed''])) * 60"
proof -
  have "(let analyzed = filter (\<lambda>s. user s = 1 \<and> status s = ''analyzed'')
             [row 1 1 0 7 1 ''analyzed''];
          fillers = sum_list (map filler_count analyzed);
          seconds = sum_list (map duration analyzed)
      in if 0 < seconds then round2 (fl (fl (of_int fillers / of_int seconds) * 60)) else 0)
     \<noteq> of_int (sum_list (map filler_count [row 1 1 0 7 1 ''analyzed'']))
         / of_int (sum_list (map duration [row 1 1 0 7 1 ''analyzed''])) * 60"
    by code_simp
  then show ?thesis
    unfolding analytics_average_filler_rate .
qed

text \<open>
  C2: \<^verbatim>\<open>improvement_metrics.filler_improvement_percent\<close> is in the response exactly when
  the owner has more than one session, the window of the last 30 days and the window of
  the 30 days before it each hold a session of the owner, and the average filler count
  of the earlier window is positive; its value is then the relative improvement in
  percent, computed in float arithmetic and rounded to two decimals by \<^verbatim>\<open>round\<close>.
  Otherwise the key is missing.
\<close>

theorem C2_filler_improvement_percent:
  "filler_improvement_percent (analytics u now1 now2 d) =
     (let own = filter (\<lambda>s. user s = u) d;
          recent = filter (\<lambda>s. now1 - days 30 \<le> date s) own;
          previous = filter (\<lambda>s. now2 - days 60 \<le> date s \<and> date s < now1 - days 30) own;
          recent_avg_fillers =
            fl (of_int (sum_list (map filler_count recent)) / of_nat (length recent));
          previous_avg_fillers =
            fl (of_int (sum_list (map filler_count previous)) / of_nat (length previous))
      in if 1 < length own \<and> recent \<noteq> [] \<and> previous \<noteq> [] \<and> 0 < previous_avg_fillers
         then Some (round2 (fl (fl (fl (previous_avg_fillers - recent_avg_fillers)
                                       / previous_avg_fillers) * 100)))
         else None)"
proof (cases "get_queryset u d = []")
  case True
  then show ?thesis
    by (simp add: filler_improvement_percent_def analytics_def Let_def get_queryset_def)
next
  case False
  then show ?thesis
    by (simp add: filler_improvement_percent_def analytics_def improvement_def Let_def
        get_queryset_def Avg_def or_zero_def)
qed

text \<open>
  Day 90: a session of day 50 with 3 filler words, a session of day 80 with 2. The
  improvement is a third, reported as 33.33. With 160 and 67 filler words the float
  result lies just above 58.125 and is reported as 58.13.
\<close>

theorem C2_filler_improvement_percent_witness:
  "filler_improvement_percent
     (analytics 1 (days 90) (days 90)
        [row 1 1 (days 50) 60 3 ''analyzed'', row 2 1 (days 80) 60 2 ''pending''])
     = Some (fl (3333 / 100)) \<and>
   filler_improvement_percent
     (analytics 1 (days 90) (days 90)
        [row 1 1 (days 50) 60 160 ''analyzed'', row 2 1 (days 80) 60 67 ''analyzed''])
     = Some (fl (5813 / 100))"
proof -
  have "(let own = filter (\<lambda>s. user s = 1)
               [row 1 1 (days 50) 60 3 ''analyzed'', row 2 1 (days 80) 60 2 ''pending''];
          recent = filter (\<lambda>s. days 90 - days 30 \<le> date s) own;
          previous = filter (\<lambda>s. days 90 - days 60 \<le> date s \<and> date s < days 90 - days 30) own;
          recent_avg_fillers =
            fl (of_int (sum_list (map filler_count recent)) / of_nat (length recent));
          previous_avg_fillers =
            fl (of_int (sum_list (map filler_count previous)) / of_nat (length previous))
      in if 1 < length own \<and> recent \<noteq> [] \<and> previous \<noteq> [] \<and> 0 < previous_avg_fillers
         then Some (round2 (fl (fl (fl (previous_avg_fillers - recent_avg_fillers)
                                       / previous_avg_fillers) * 100)))
         else None) = Some (fl (3333 / 100))"
    by code_simp
  moreover have "(let own = filter (\<lambda>s. user s = 1)
               [row 1 1 (days 50) 60 160 ''analyzed'', row 2 1 (days 80) 60 67 ''analyzed''];
          recent = filter (\<lambda>s. days 90 - days 30 \<le> date s) own;
          previous = filter (\<lambda>s. days 90 - days 60 \<le> date s \<and> date s < days 90 - days 30) own;
          recent_avg_fillers =
            fl (of_int (sum_list (map filler_count recent)) / of_nat (length recent));
          previous_avg_fillers =
            fl (of_int (sum_list (map filler_count previous)) / of_nat (length previous))
      in if 1 < length own \<and> recent \<noteq> [] \<and> previous \<noteq> [] \<and> 0 < previous_avg_fillers
         then Some (round2 (fl (fl (fl (previous_avg_fillers - recent_avg_fillers)
                                       / previous_avg_fillers) * 100)))
         else None) = Some (fl (5813 / 100))"
    by code_simp
  ultimately show ?thesis
    by (simp only: C2_filler_improvement_percent)
qed

section \<open>Properties of the detail routes\<close>

lemma filter_key_unique:
  "distinct (map f xs) \<Longrightarrow> x \<in> set xs \<Longrightarrow> filter (\<lambda>y. f y = f x) xs = [x]"
proof (induction xs)
  case Nil
  then show ?case by simp
next
  case (Cons y ys)
  show ?case
  proof (cases "y = x")
    case True
    with Cons.prems have "f x \<notin> f ` set ys" by simp
    then have "filter (\<lambda>y. f y = f x) ys = []"
      by (force simp: filter_empty_conv image_iff)
    with True show ?thesis by simp
  next
    case False
    with Cons.prems have "x \<in> set ys" and "f y \<noteq> f x" by auto
    with Cons show ?thesis by simp
  qed
qed




lemma own_row_found:
  assumes "distinct (map ident d)" and "s \<in> set d" and "user s = u"
  shows "filter (\<lambda>r. ident r = ident s \<and> user r = u) d = [s]"
proof -
  have "filter (\<lambda>r. ident r = ident s \<and> user r = u) d
          = filter (\<lambda>r. user r = u) (filter (\<lambda>r. ident r = ident s) d)"
    by (simp add: conj_commute)
  also have "\<dots> = [s]"
    using assms by (simp add: filter_key_unique)
  finally show ?thesis .
qed

lemma get_object_own:
  assumes "distinct (map ident d)" and "s \<in> set d" and "user s = uid a"
  shows "get_object a (ident s) d = Inr s"
  using own_row_found [OF assms] assms(3)
  by (simp add: get_object_def get_queryset_def conj_commute has_object_permission_def)




text \<open>
  The claim as written fails for an authenticated actor whose two-factor authentication
  is enabled and not verified: asking for session 7 of user 2, user 1 gets a 403 and
  not a 404.
\<close>

theorem C4_counterexample:
  "is_authenticated ((member 1)\<lparr>is_2fa_enabled := True\<rparr>) \<and>
   user (row 7 2 0 60 6 ''analyzed'') \<noteq> uid ((member 1)\<lparr>is_2fa_enabled := True\<rparr>) \<and>
   dispatch ((member 1)\<lparr>is_2fa_enabled := True\<rparr>) [row 7 2 0 60 6 ''analyzed'']
     (retrieve ((member 1)\<lparr>is_2fa_enabled := True\<rparr>) 7 [row 7 2 0 60 6 ''analyzed''])
     = (Inl HTTP_403, [row 7 2 0 60 6 ''analyzed'']) \<and>
   HTTP_403 \<noteq> HTTP_404"
  by (simp add: dispatch_def has_permission_def member_def row_def)

text \<open>
  C8: re-analysis of an own session without an audio file is answered 400, and the table
  is the one before the request: no field of any row changes, \<^verbatim>\<open>updated_at\<close> included.
\<close>

theorem C8_reanalyze_without_audio:
  assumes "distinct (map ident d)" and "s \<in> set d" and "user s = uid a"
    and "has_permission a" and "\<not> has_audio_file s"
  shows "dispatch a d (reanalyze hash strftime a (ident s) now now' d) = (Inl HTTP_400, d)"
  using get_object_own [OF assms(1-3)] assms(4,5)
  by (simp add: dispatch_def reanalyze_def)

text \<open>User 1 re-analyzes the own session 7, which has no audio file.\<close>

theorem C8_reanalyze_without_audio_witness:
  "dispatch (member 1) [row 7 1 0 60 6 ''pending'', row 8 2 0 60 6 ''pending'']
     (reanalyze (\<lambda>k. 3) (\<lambda>t. ''2025-01-01 10:00'') (member 1) 7 5 6
        [row 7 1 0 60 6 ''pending'', row 8 2 0 60 6 ''pending''])
     = (Inl HTTP_400, [row 7 1 0 60 6 ''pending'', row 8 2 0 60 6 ''pending''])"
proof -
  have ids: "distinct (map ident [row 7 1 0 60 6 ''pending'', row 8 2 0 60 6 ''pending''])"
    and mem: "row 7 1 0 60 6 ''pending''
                \<in> set [row 7 1 0 60 6 ''pending'', row 8 2 0 60 6 ''pending'']"
    and own: "user (row 7 1 0 60 6 ''pending'') = uid (member 1)"
    and perm: "has_permission (member 1)"
    and audio: "\<not> has_audio_file (row 7 1 0 60 6 ''pending'')"
    and pk: "ident (row 7 1 0 60 6 ''pending'') = 7"
    by (simp_all add: row_def member_def has_permission_def has_audio_file_def)
  show ?thesis
    using C8_reanalyze_without_audio [OF ids mem own perm audio,
        of "\<lambda>k. 3" "\<lambda>t. ''2025-01-01 10:00''" 5 6] pk
    by simp
qed

section \<open>Properties of the bulk update and of the re-analysis\<close>

lemma filter_owned_ids:
  "filter (\<lambda>s. ident s \<in> set session_ids) (get_queryset u d)
     = filter (\<lambda>s. user s = u \<and> ident s \<in> set session_ids) d"
  by (simp add: get_queryset_def conj_commute)

lemma invalid_fields_empty:
  "filter (\<lambda>k. k \<notin> set allowed_fields) (map fst updates) = []
     \<longleftrightarrow> set (map fst updates) \<subseteq> set allowed_fields"
  by (auto simp: filter_empty_conv)

lemma or_else_simps: "or_else None d = d" "or_else (Some v) d = v"
  by (simp_all add: or_else_def)

lemma new_value_Cons:
  "new_text ((k, v) # kvs) k' =
     (if k' = k then (case v of JStr x \<Rightarrow> Some x | _ \<Rightarrow> None) else new_text kvs k')"
  "new_int ((k, v) # kvs) k' =
     (if k' = k then (case v of JInt x \<Rightarrow> Some x | _ \<Rightarrow> None) else new_int kvs k')"
  "new_float ((k, v) # kvs) k' =
     (if k' = k
      then (case v of JNum x \<Rightarrow> Some (Some (fl x)) | JInt x \<Rightarrow> Some (Some (fl (of_int x)))
            | JNull \<Rightarrow> Some None | _ \<Rightarrow> None)
      else new_float kvs k')"
  by (simp_all add: new_text_def new_int_def new_float_def)

lemma new_value_None:
  "map_of kvs k = None \<Longrightarrow> new_text kvs k = None"
  "map_of kvs k = None \<Longrightarrow> new_int kvs k = None"
  "map_of kvs k = None \<Longrightarrow> new_float kvs k = None"
  by (simp_all add: new_text_def new_int_def new_float_def)

lemma written_Nil: "written [] s = s"
  by (simp add: written_def new_text_def new_int_def new_float_def or_else_def)

lemma column_safe_cases:
  assumes "column_safe k v"
  obtains x where "k = ''status''" "v = JStr x"
  | x where "k = ''pacing_analysis''" "v = JStr x"
  | x where "k = ''filler_count''" "v = JInt x"
  | x where "k = ''confidence_score''" "v = JInt x"
  | x where "k = ''confidence_score''" "v = JNum x"
  | "k = ''confidence_score''" "v = JNull"
  using assms by (cases v) (auto simp: column_safe_def)

lemma written_Cons:
  assumes "column_safe k v" and "assign k v = Some f" and "map_of kvs k = None"
  shows "written kvs (f s) = written ((k, v) # kvs) s"
  using assms(1)
proof (cases rule: column_safe_cases)
  case (1 x)
  with assms(2,3) show ?thesis
    by (auto simp: assign_def written_def new_value_Cons new_value_None or_else_simps)
next
  case (2 x)
  with assms(2,3) show ?thesis
    by (auto simp: assign_def written_def new_value_Cons new_value_None or_else_simps)
next
  case (3 x)
  with assms(2,3) show ?thesis
    by (auto simp: assign_def written_def new_value_Cons new_value_None or_else_simps)
next
  case (4 x)
  with assms(2,3) show ?thesis
    by (auto simp: assign_def written_def new_value_Cons new_value_None or_else_simps)
next
  case (5 x)
  with assms(2,3) show ?thesis
    by (auto simp: assign_def written_def new_value_Cons new_value_None or_else_simps)
next
  case 6
  with assms(2,3) show ?thesis
    by (auto simp: assign_def written_def new_value_Cons new_value_None or_else_simps)
qed

lemma assign_safe: "column_safe k v \<Longrightarrow> \<exists>f. assign k v = Some f"
  by (erule column_safe_cases) (simp_all add: assign_def)

lemma set_fields_written:
  "distinct (map fst kvs) \<Longrightarrow> \<forall>(k, v)\<in>set kvs. column_safe k v \<Longrightarrow>
     \<exists>f. set_fields prep kvs = Some f \<and> (\<forall>s. f s = written kvs s)"
proof (induction kvs)
  case Nil
  then show ?case by (simp add: written_Nil)
next
  case (Cons kv kvs)
  obtain k v where kv: "kv = (k, v)" by (cases kv)
  from Cons.prems kv have safe: "column_safe k v" and fresh: "map_of kvs k = None"
    by (auto simp: map_of_eq_None_iff)
  from assign_safe [OF safe] obtain f where f: "assign k v = Some f" by blast
  from Cons.IH Cons.prems obtain g where
    g: "set_fields prep kvs = Some g" "\<forall>s. g s = written kvs s"
    by auto
  have "set_fields prep (kv # kvs) = Some (g \<circ> f)"
    using kv safe f g(1) by (simp add: set_field_def)
  moreover have "(g \<circ> f) s = written (kv # kvs) s" for s
    using g(2) written_Cons [OF safe f fresh] kv by simp
  ultimately show ?case by blast
qed

text \<open>
  C10: a bulk update with a non-empty update object whose keys are allowed fields and
  whose values are safe for their columns, and with at least one id of an own session in
  \<^verbatim>\<open>session_ids\<close>, succeeds. On exactly the own sessions whose id is listed, every field
  named in the object takes the value given for it and every other field keeps its own;
  every other row (other owners' sessions, and ids that name no session, are passed over
  without an error) stays as it is, and \<^verbatim>\<open>updated_count\<close> is the number of rows written.
\<close>

theorem C10_bulk_update_owned_only:
  assumes "updates \<noteq> []" and "distinct (map fst updates)"
    and "\<forall>(k, v)\<in>set updates. k \<in> set allowed_fields \<and> column_safe k v"
    and "\<exists>s\<in>set d. user s = u \<and> ident s \<in> set session_ids"
  shows "bulk_update prep u session_ids updates d =
           (Inr (length (filter (\<lambda>s. user s = u \<and> ident s \<in> set session_ids) d)),
            map (\<lambda>s. if user s = u \<and> ident s \<in> set session_ids then written updates s
                      else s) d)"
proof -
  from assms(4) have ids: "session_ids \<noteq> []" by auto
  from assms(4) have sel: "filter (\<lambda>s. user s = u \<and> ident s \<in> set session_ids) d \<noteq> []"
    by (auto simp: filter_empty_conv)
  from assms(3) have "set (map fst updates) \<subseteq> set allowed_fields" by auto
  then have inv: "filter (\<lambda>k. k \<notin> set allowed_fields) (map fst updates) = []"
    by (simp only: invalid_fields_empty)
  from assms(3) have "\<forall>(k, v)\<in>set updates. column_safe k v" by auto
  from set_fields_written [OF assms(2) this] obtain f where
    f: "set_fields prep updates = Some f" "\<forall>s. f s = written updates s"
    by blast
  show ?thesis
    using assms(1) f ids sel inv
    by (simp add: bulk_update_def filter_owned_ids update_def Let_def)
qed

text \<open>
  User 1 sets four fields on the ids 1, 2 and 9: session 1 is the user's own, session 2
  belongs to user 2 and there is no session 9. One row is written, in all four fields.
\<close>

theorem C10_witness:
  "bulk_update (\<lambda>k v. None) 1 [1, 2, 9]
     [(''status'', JStr ''archived''), (''filler_count'', JInt 3),
      (''confidence_score'', JNum (1 / 2)), (''pacing_analysis'', JStr ''slow'')]
     [row 1 1 0 60 6 ''analyzed'', row 2 2 0 30 1 ''pending'', row 3 1 0 10 0 ''pending'']
   = (Inr 1,
      [(row 1 1 0 60 3 ''archived'')\<lparr>pacing_analysis := ''slow'', confidence_score := Some (1 / 2)\<rparr>,
       row 2 2 0 30 1 ''pending'', row 3 1 0 10 0 ''pending''])"
proof -
  let ?updates = "[(''status'', JStr ''archived''), (''filler_count'', JInt 3),
      (''confidence_score'', JNum (1 / 2)), (''pacing_analysis'', JStr ''slow'')]"
  let ?d = "[row 1 1 0 60 6 ''analyzed'', row 2 2 0 30 1 ''pending'',
             row 3 1 0 10 0 ''pending'']"
  have nonempty: "?updates \<noteq> []" and keys: "distinct (map fst ?updates)"
    by simp_all
  have safe: "\<forall>(k, v)\<in>set ?updates. k \<in> set allowed_fields \<and> column_safe k v"
    by code_simp
  have owned: "\<exists>s\<in>set ?d. user s = 1 \<and> ident s \<in> set [1, 2, 9]"
    by (simp add: row_def)
  have count: "length (filter (\<lambda>s. user s = 1 \<and> ident s \<in> set [1, 2, 9]) ?d) = 1"
    by (simp add: row_def)
  have rows: "map (\<lambda>s. if user s = 1 \<and> ident s \<in> set [1, 2, 9] then written ?updates s
                        else s) ?d =
      [(row 1 1 0 60 3 ''archived'')\<lparr>pacing_analysis := ''slow'', confidence_score := Some (1 / 2)\<rparr>,
       row 2 2 0 30 1 ''pending'', row 3 1 0 10 0 ''pending'']"
    by code_simp
  show ?thesis
    using C10_bulk_update_owned_only [OF nonempty keys safe owned, of "\<lambda>k v. None"]
    by (simp only: count rows)
qed

text \<open>
  C5, as the code has it: a bulk update whose update object has a key outside the
  allow-list fails and changes no row; the answer is 404 when \<^verbatim>\<open>session_ids\<close> is not empty
  and names no session of the owner (that check comes first), and 400 otherwise. A
  request with non-empty \<^verbatim>\<open>session_ids\<close> and \<^verbatim>\<open>updates\<close> that names no session of the owner
  is answered 404, and changes no row.
\<close>

theorem C5_disallowed_field_rejected:
  "((\<exists>k\<in>set (map fst updates). k \<notin> set allowed_fields) \<longrightarrow>
      bulk_update prep u session_ids updates d =
        (Inl (if session_ids \<noteq> []
                 \<and> filter (\<lambda>s. user s = u \<and> ident s \<in> set session_ids) d = []
              then HTTP_404 else HTTP_400), d)) \<and>
   (session_ids \<noteq> [] \<and> updates \<noteq> []
      \<and> filter (\<lambda>s. user s = u \<and> ident s \<in> set session_ids) d = [] \<longrightarrow>
      bulk_update prep u session_ids updates d = (Inl HTTP_404, d))"
proof -
  have "filter (\<lambda>k. k \<notin> set allowed_fields) (map fst updates) \<noteq> []"
    if "\<exists>k\<in>set (map fst updates). k \<notin> set allowed_fields"
    using that by (simp add: filter_empty_conv)
  then show ?thesis
    by (auto simp: bulk_update_def filter_owned_ids Let_def)
qed

text \<open>
  An allowed key beside the key \<^verbatim>\<open>duration\<close>, on an own session: 400, and the status is
  not written. An allowed key on another user's session: 404.
\<close>

theorem C5_witness:
  "bulk_update (\<lambda>k v. None) 1 [1] [(''status'', JStr ''archived''), (''duration'', JInt 1)]
     [row 1 1 0 60 6 ''analyzed''] = (Inl HTTP_400, [row 1 1 0 60 6 ''analyzed'']) \<and>
   bulk_update (\<lambda>k v. None) 1 [2] [(''status'', JStr ''archived'')]
     [row 1 1 0 60 6 ''analyzed'', row 2 2 0 30 1 ''pending'']
     = (Inl HTTP_404, [row 1 1 0 60 6 ''analyzed'', row 2 2 0 30 1 ''pending''])"
  using C5_disallowed_field_rejected [of "[(''status'', JStr ''archived''), (''duration'', JInt 1)]"
      "\<lambda>k v. None" 1 "[1]" "[row 1 1 0 60 6 ''analyzed'']"]
    C5_disallowed_field_rejected [of "[(''status'', JStr ''archived'')]"
      "\<lambda>k v. None" 1 "[2]" "[row 1 1 0 60 6 ''analyzed'', row 2 2 0 30 1 ''pending'']"]
  by (simp add: allowed_fields_def row_def)

text \<open>
  The key \<^verbatim>\<open>duration\<close> is not allowed, yet the answer is not 400 when the only id listed
  is the one of another user's session: the handler has answered 404 before it looks at
  the keys.
\<close>

theorem C5_counterexample:
  "''duration'' \<in> set (map fst [(''duration'', JInt 1)]) \<and> ''duration'' \<notin> set allowed_fields \<and>
   fst (bulk_update (\<lambda>k v. None) 1 [2] [(''duration'', JInt 1)] [row 2 2 0 30 1 ''pending''])
     \<noteq> Inl HTTP_400"
  by (simp add: bulk_update_def allowed_fields_def get_queryset_def row_def)

lemma fl_three_halves: "fl (3 / 2) = 3 / 2"
  by code_simp

lemma column_safe_three_halves: "column_safe ''confidence_score'' (JNum (3 / 2))"
  by code_simp

text \<open>
  C3 fails on the bulk update: the handler validates the names of the fields only, and
  \<^verbatim>\<open>update()\<close> runs no validator. A filler count of -5 and a confidence score of 1.5 are
  stored on the own session 1, and the request succeeds.
\<close>

theorem C3_bulk_update_stores_out_of_range:
  "bulk_update prep 1 [1] [(''filler_count'', JInt (- 5)), (''confidence_score'', JNum (3 / 2))]
     [row 1 1 0 60 6 ''analyzed'']
   = (Inr 1, [(row 1 1 0 60 6 ''analyzed'')\<lparr>filler_count := - 5, confidence_score := Some (3 / 2)\<rparr>])"
proof -
  have "column_safe ''filler_count'' (JInt (- 5))"
    by (simp add: column_safe_def)
  then show ?thesis
    using column_safe_three_halves
    by (simp add: bulk_update_def allowed_fields_def get_queryset_def set_field_def
        assign_def update_def row_def fl_three_halves)
qed

text \<open>
  C9 fails on the bulk paths: \<^verbatim>\<open>sessions.update(...)\<close> does not go through \<^verbatim>\<open>save()\<close>, so
  the \<^verbatim>\<open>auto_now\<close> column is not stamped. Session 1, last written at time 0, is archived
  by the bulk update and by the bulk action, and \<^verbatim>\<open>updated_at\<close> is still 0.
\<close>

theorem C9_bulk_paths_keep_updated_at:
  "map status (snd (bulk_update prep 1 [1] [(''status'', JStr ''archived'')] [row 1 1 0 60 6 ''analyzed''])) = [''archived''] \<and>
   map updated_at (snd (bulk_update prep 1 [1] [(''status'', JStr ''archived'')] [row 1 1 0 60 6 ''analyzed''])) = [0] \<and>
   map status (snd (session_bulk_action_view (member 1) (Some (''archive'', [1])) [row 1 1 0 60 6 ''analyzed''])) = [''archived''] \<and>
   map updated_at (snd (session_bulk_action_view (member 1) (Some (''archive'', [1])) [row 1 1 0 60 6 ''analyzed''])) = [0]"
  by (simp add: bulk_update_def allowed_fields_def get_queryset_def set_field_def
      column_safe_def assign_def update_def
      row_def session_bulk_action_view_def require_2fa_if_enabled_def member_def)

lemma nudged_default:
  "min 1 (max 0 (fl (fl (4 / 5) + fl (1 / 20)))) = 1914029841632461 / 2251799813685248"
  by code_simp

text \<open>
  C7 fails for a stored confidence score of 0.0: \<^verbatim>\<open>session.confidence_score or 0.8\<close> takes
  the zero for a missing value, and the new score is the float sum of 0.8 and 0.05
  (0.8500000000000001) where the claim says 0.05.
\<close>

theorem C7_reanalyze_zero_confidence:
  "map confidence_score
     (snd (reanalyze (\<lambda>k. 2) (\<lambda>t. ''2025-01-01 10:00'') (member 1) 1 5 5
        [(row 1 1 0 60 6 ''pending'')\<lparr>audio_file := Some ''a.wav'', confidence_score := Some 0\<rparr>]))
   = [Some (1914029841632461 / 2251799813685248)]"
  by (simp add: reanalyze_def get_object_def get_queryset_def has_object_permission_def
      has_audio_file_def or_default_def save_def row_def member_def nudged_default)

section \<open>Properties of the session list\<close>

lemma apply_filters_matches:
  "apply_filters (Some cd) (filter (\<lambda>s. user s = u) d) = filter (matches u cd) d"
proof -
  have "apply_filters (Some cd) xs = filter (\<lambda>s.
     (case status_filter cd of None \<Rightarrow> True | Some st \<Rightarrow> st = [] \<or> status s = st) \<and>
     (case date_from cd of None \<Rightarrow> True | Some df \<Rightarrow> df \<le> day_of (date s)) \<and>
     (case date_to cd of None \<Rightarrow> True | Some dt \<Rightarrow> day_of (date s) \<le> dt) \<and>
     (case search cd of
        None \<Rightarrow> True
      | Some q \<Rightarrow> q = [] \<or> icontains (transcription s) q \<or> icontains (pacing_analysis s) q)) xs"
    for xs
    by (cases "status_filter cd"; cases "date_from cd"; cases "date_to cd"; cases "search cd")
       (simp_all add: apply_filters_def Let_def conj_commute conj_left_commute)
  then show ?thesis
    by (simp add: matches_def [abs_def] conj_commute conj_left_commute)
qed

lemma apply_filters_subset: "set (apply_filters form xs) \<subseteq> set xs"
  by (auto simp: apply_filters_def Let_def split: option.splits if_splits)

lemma order_by_date_desc_sorted:
  "sorted_wrt (\<lambda>x y. date y \<le> date x) (order_by_date_desc xs)"
proof -
  have "sorted (map date (sort_key date xs))" by (rule sorted_sort_key)
  then have "sorted_wrt (\<lambda>x y. date x \<le> date y) (sort_key date xs)"
    by (simp add: sorted_map)
  then show ?thesis
    by (simp add: order_by_date_desc_def sorted_wrt_rev)
qed

lemma order_by_date_desc_mset: "mset (order_by_date_desc xs) = mset xs"
  by (simp add: order_by_date_desc_def)

lemma get_page_subset: "set (get_page n xs p) \<subseteq> set xs"
proof -
  have "set (take n (drop k xs)) \<subseteq> set xs" for k
    using set_take_subset [of n "drop k xs"] set_drop_subset [of k xs] by blast
  then show ?thesis by (simp add: get_page_def Let_def)
qed

lemma num_pages_10:
  "num_pages 10 xs = (if xs = [] then 1 else (length xs + 9) div 10)"
  by (cases xs) (simp_all add: num_pages_def)

lemma get_page_10:
  "get_page 10 xs page_number =
     take 10 (drop (10 * ((case page_number of
                             None \<Rightarrow> 1
                           | Some k \<Rightarrow>
                               if 1 \<le> k \<and> k \<le> int (if xs = [] then 1 else (length xs + 9) div 10)
                               then nat k
                               else (if xs = [] then 1 else (length xs + 9) div 10)) - 1)) xs)"
  by (cases page_number) (auto simp: get_page_def num_pages_10 Let_def mult.commute)

lemma nth_in_page:
  assumes "i < length xs" and "0 < n"
  shows "xs ! i \<in> set (take n (drop (n * (i div n)) xs))"
proof -
  let ?m = "n * (i div n)" and ?j = "i mod n"
  have i: "?m + ?j = i" by simp
  have j: "?j < n" using assms(2) by simp
  have "?j < length (drop ?m xs)" using assms(1) i by (metis add.commute length_drop less_diff_conv)
  with j have len: "?j < length (take n (drop ?m xs))" by simp
  have "?m \<le> length xs" using assms(1) i by linarith
  then have "drop ?m xs ! ?j = xs ! (?m + ?j)" by (rule nth_drop)
  then have "take n (drop ?m xs) ! ?j = xs ! i"
    using j i by (simp add: nth_take)
  with len show ?thesis by (metis nth_mem)
qed

lemma every_row_on_a_page:
  assumes "s \<in> set xs"
  shows "\<exists>k. 1 \<le> k \<and> k \<le> (if xs = [] then 1 else (length xs + 9) div 10)
              \<and> s \<in> set (take 10 (drop (10 * (k - 1)) xs))"
proof -
  from assms obtain i where i: "i < length xs" "xs ! i = s"
    by (auto simp: in_set_conv_nth)
  then have "xs \<noteq> []" by auto
  moreover have "i div 10 + 1 \<le> (length xs + 9) div 10" using i(1) by linarith
  moreover have "s \<in> set (take 10 (drop (10 * ((i div 10 + 1) - 1)) xs))"
    using nth_in_page [OF i(1), of 10] i(2) by simp
  ultimately show ?thesis
    by (intro exI [of _ "i div 10 + 1"]) simp
qed

text \<open>
  C6: for an actor who passes the page gate and a query that the filter form accepts,
  the list view shows a page of the owner's sessions that pass every supplied filter:
  these sessions, nothing else and each of them once, in an order from the newest to the
  oldest, are cut into pages of ten (the last page holds the rest, and an empty list
  has one empty page); the view shows the page asked for, the first page when no page
  number is given and the last page when the number is out of range, and every
  matching session is on one of the pages. Whatever the form and the page number are,
  every session on the page is a stored session of the actor.
\<close>

theorem C6_session_list:
  assumes "require_2fa_if_enabled a = None"
    and "\<And>xs. mset (order_by xs) = mset xs"
    and "\<And>xs. sorted_wrt (\<lambda>x y. date y \<le> date x) (order_by xs)"
  shows "(let ordered = order_by (filter (matches (uid a) cd) d);
              pages = (if ordered = [] then 1 else (length ordered + 9) div 10);
              number = (case page_number of
                          None \<Rightarrow> 1
                        | Some k \<Rightarrow> if 1 \<le> k \<and> k \<le> int pages then nat k else pages)
          in session_list_view order_by a (Some cd) page_number d =
               Inr \<lparr>page_obj = take 10 (drop (10 * (number - 1)) ordered),
                    total = length (filter (\<lambda>s. user s = uid a) d),
                    pending_sessions =
                      length (filter (\<lambda>s. user s = uid a \<and> status s = ''pending'') d),
                    analyzed_sessions =
                      length (filter (\<lambda>s. user s = uid a \<and> status s = ''analyzed'') d)\<rparr>
             \<and> mset ordered = mset (filter (matches (uid a) cd) d)
             \<and> sorted_wrt (\<lambda>x y. date y \<le> date x) ordered
             \<and> (\<forall>s\<in>set ordered.
                   \<exists>k. 1 \<le> k \<and> k \<le> pages \<and> s \<in> set (take 10 (drop (10 * (k - 1)) ordered))))
         \<and> (\<forall>ctx. session_list_view order_by a filter_form page_number d = Inr ctx \<longrightarrow>
               (\<forall>s\<in>set (page_obj ctx). s \<in> set d \<and> user s = uid a))"
proof -
  define ordered where "ordered = order_by (filter (matches (uid a) cd) d)"
  have own: "\<forall>s\<in>set (page_obj ctx). s \<in> set d \<and> user s = uid a"
    if "session_list_view order_by a filter_form page_number d = Inr ctx" for ctx
  proof -
    from that assms(1) have "page_obj ctx =
        get_page 10 (order_by
          (apply_filters filter_form (filter (\<lambda>s. user s = uid a) d))) page_number"
      by (auto simp: session_list_view_def Let_def)
    then have "set (page_obj ctx)
        \<subseteq> set (order_by (apply_filters filter_form (filter (\<lambda>s. user s = uid a) d)))"
      by (simp only: get_page_subset)
    also have "\<dots> = set (apply_filters filter_form (filter (\<lambda>s. user s = uid a) d))"
      by (rule mset_eq_setD [OF assms(2)])
    also have "\<dots> \<subseteq> set (filter (\<lambda>s. user s = uid a) d)"
      by (rule apply_filters_subset)
    finally show ?thesis by auto
  qed
  have view: "session_list_view order_by a (Some cd) page_number d =
               Inr \<lparr>page_obj = get_page 10 ordered page_number,
                    total = length (filter (\<lambda>s. user s = uid a) d),
                    pending_sessions =
                      length (filter (\<lambda>s. user s = uid a \<and> status s = ''pending'') d),
                    analyzed_sessions =
                      length (filter (\<lambda>s. user s = uid a \<and> status s = ''analyzed'') d)\<rparr>"
    using assms(1)
    by (simp add: session_list_view_def Let_def apply_filters_matches ordered_def)
  have perm: "mset ordered = mset (filter (matches (uid a) cd) d)"
    unfolding ordered_def by (rule assms(2))
  have desc: "sorted_wrt (\<lambda>x y. date y \<le> date x) ordered"
    unfolding ordered_def by (rule assms(3))
  have cover: "\<forall>s\<in>set ordered.
      \<exists>k. 1 \<le> k \<and> k \<le> (if ordered = [] then 1 else (length ordered + 9) div 10)
           \<and> s \<in> set (take 10 (drop (10 * (k - 1)) ordered))"
    by (intro ballI every_row_on_a_page)
  have view': "session_list_view order_by a (Some cd) page_number d =
               Inr \<lparr>page_obj =
                      take 10 (drop (10 * ((case page_number of
                          None \<Rightarrow> 1
                        | Some k \<Rightarrow>
                            if 1 \<le> k
                               \<and> k \<le> int (if ordered = [] then 1 else (length ordered + 9) div 10)
                            then nat k
                            else (if ordered = [] then 1 else (length ordered + 9) div 10)) - 1))
                        ordered),
                    total = length (filter (\<lambda>s. user s = uid a) d),
                    pending_sessions =
                      length (filter (\<lambda>s. user s = uid a \<and> status s = ''pending'') d),
                    analyzed_sessions =
                      length (filter (\<lambda>s. user s = uid a \<and> status s = ''analyzed'') d)\<rparr>"
    unfolding view get_page_10 ..
  have first: "session_list_view order_by a (Some cd) page_number d =
               Inr \<lparr>page_obj =
                      take 10 (drop (10 * ((case page_number of
                          None \<Rightarrow> 1
                        | Some k \<Rightarrow>
                            if 1 \<le> k
                               \<and> k \<le> int (if ordered = [] then 1 else (length ordered + 9) div 10)
                            then nat k
                            else (if ordered = [] then 1 else (length ordered + 9) div 10)) - 1))
                        ordered),
                    total = length (filter (\<lambda>s. user s = uid a) d),
                    pending_sessions =
                      length (filter (\<lambda>s. user s = uid a \<and> status s = ''pending'') d),
                    analyzed_sessions =
                      length (filter (\<lambda>s. user s = uid a \<and> status s = ''analyzed'') d)\<rparr>
             \<and> mset ordered = mset (filter (matches (uid a) cd) d)
             \<and> sorted_wrt (\<lambda>x y. date y \<le> date x) ordered
             \<and> (\<forall>s\<in>set ordered.
                   \<exists>k. 1 \<le> k \<and> k \<le> (if ordered = [] then 1 else (length ordered + 9) div 10)
                       \<and> s \<in> set (take 10 (drop (10 * (k - 1)) ordered)))"
    using view' perm desc cover by (intro conjI)
  have second: "\<forall>ctx. session_list_view order_by a filter_form page_number d = Inr ctx \<longrightarrow>
               (\<forall>s\<in>set (page_obj ctx). s \<in> set d \<and> user s = uid a)"
    using own by (intro allI impI)
  show ?thesis
    unfolding Let_def ordered_def [symmetric] using first second by (rule conjI)
qed

text \<open>
  User 1 asks for analyzed sessions of the days 3 to 5 that mention \<^verbatim>\<open>um\<close>. Of the six
  sessions, session 2 belongs to user 2, session 4 is pending, session 5 is of day 6 and
  session 6 does not mention it; session 3 is newer than session 1.
\<close>

theorem C6_session_list_witness:
  "session_list_view order_by_date_desc (member 1) (Some example_query) None example_sessions =
     Inr \<lparr>page_obj =
            [(row 3 1 (days 5 + 7) 10 0 ''analyzed'')\<lparr>pacing_analysis := ''Hum''\<rparr>,
             (row 1 1 (days 3) 60 6 ''analyzed'')\<lparr>transcription := ''so UM yes''\<rparr>],
          total = 5, pending_sessions = 1, analyzed_sessions = 4\<rparr>"
proof -
  have gate: "require_2fa_if_enabled (member 1) = None"
    by (simp add: require_2fa_if_enabled_def member_def)
  have page: "(let ordered = order_by_date_desc
                   (filter (matches (uid (member 1)) example_query) example_sessions);
              pages = (if ordered = [] then 1 else (length ordered + 9) div 10);
              number = (case None of
                          None \<Rightarrow> 1
                        | Some k \<Rightarrow> if 1 \<le> k \<and> k \<le> int pages then nat k else pages)
          in take 10 (drop (10 * (number - 1)) ordered)) =
        [(row 3 1 (days 5 + 7) 10 0 ''analyzed'')\<lparr>pacing_analysis := ''Hum''\<rparr>,
         (row 1 1 (days 3) 60 6 ''analyzed'')\<lparr>transcription := ''so UM yes''\<rparr>]"
    by code_simp
  have counts: "length (filter (\<lambda>s. user s = uid (member 1)) example_sessions) = 5"
    "length (filter (\<lambda>s. user s = uid (member 1) \<and> status s = ''pending'') example_sessions) = 1"
    "length (filter (\<lambda>s. user s = uid (member 1) \<and> status s = ''analyzed'') example_sessions) = 4"
    by (simp_all add: example_sessions_def member_def row_def)
  have "session_list_view order_by_date_desc (member 1) (Some example_query) None
          example_sessions =
      Inr \<lparr>page_obj =
             (let ordered = order_by_date_desc
                   (filter (matches (uid (member 1)) example_query) example_sessions);
              pages = (if ordered = [] then 1 else (length ordered + 9) div 10);
              number = (case None of
                          None \<Rightarrow> 1
                        | Some k \<Rightarrow> if 1 \<le> k \<and> k \<le> int pages then nat k else pages)
              in take 10 (drop (10 * (number - 1)) ordered)),
           total = length (filter (\<lambda>s. user s = uid (member 1)) example_sessions),
           pending_sessions =
             length (filter (\<lambda>s. user s = uid (member 1) \<and> status s = ''pending'')
                       example_sessions),
           analyzed_sessions =
             length (filter (\<lambda>s. user s = uid (member 1) \<and> status s = ''analyzed'')
                       example_sessions)\<rparr>"
    using C6_session_list [OF gate order_by_date_desc_mset order_by_date_desc_sorted,
        where cd = example_query and d = example_sessions
        and page_number = None and filter_form = None]
    unfolding Let_def by blast
  then show ?thesis
    by (simp only: page counts)
qed

end
